theory Spec2Isabelle
  imports Main "HOL-Library.Word"
begin

unbundle bit_operations_syntax

section \<open>Build-time configuration (main.c, lines 91-96)\<close>

text \<open>
  The six configuration macros of \<^verbatim>\<open>main.c\<close>. A macro is a piece of text: the
  fields hold the integer each one is written as. The preprocessor and the compiler
  read them at different widths, which the definitions below write out.
\<close>

record config =
  F_OSC :: int
  PS_FUSE :: int
  PS_TMR :: int
  TMR_TOP :: int
  ISR_CNT :: int
  PPS_DC :: int

text \<open>The configuration as shipped (lines 91-96).\<close>

definition pps_cfg :: config where
  "pps_cfg = \<lparr> F_OSC = 19440000, PS_FUSE = 8, PS_TMR = 8, TMR_TOP = 243,
               ISR_CNT = 1250, PPS_DC = 10 \<rparr>"

section \<open>The preprocessor checks (main.c, lines 111-147)\<close>

text \<open>
  In an \<^verbatim>\<open>#if\<close> expression every integer has the width of \<^verbatim>\<open>intmax_t\<close>
  (64 bits); \<open>pp\<close> is the value the preprocessor computes with. Equality and
  multiplication are the same on signed and unsigned operands (\<^verbatim>\<open>F_OSC\<close> carries
  the suffix \<^verbatim>\<open>ul\<close>); the order comparisons of lines 134, 139 and 144 have signed
  operands only.
\<close>

type_synonym intmax = "64 word"

definition pp :: "int \<Rightarrow> intmax" where
  "pp x = word_of_int x"

text \<open>The prescaler settings named by \<^verbatim>\<open>tmr0oc.h\<close> and the diagnostics of the build.\<close>

datatype ps_sel = TMR0_PS1x | TMR0_PS8x | TMR0_PS64x | TMR0_PS256x | TMR0_PS1024x

datatype diag =
    ElifNoExpression
  | InvalidPsTmr
  | FOscNotDivisible
  | TmrTopTooLarge
  | IsrCntTooLarge
  | PpsDcTooBig

text \<open>
  A conditional group is headed by an expression or, as the \<^verbatim>\<open>#elif\<close> of line 121,
  by none. Its body is a \<^verbatim>\<open>#define\<close> of \<^verbatim>\<open>PPS_PS\<close> or an \<^verbatim>\<open>#error\<close>.
\<close>

datatype cond = Expr bool | NoExpr

datatype body = Define ps_sel | Error diag

text \<open>
  The outcome of a chain \<^verbatim>\<open>#if ... #elif ... #else ... #endif\<close>: the diagnostics
  and the definition of \<^verbatim>\<open>PPS_PS\<close>, if any. The first group whose expression is
  true is taken and the rest of the chain is skipped without being evaluated. An
  \<^verbatim>\<open>#elif\<close> that is reached and has no expression is diagnosed and its group is
  not taken. When no group is taken the \<^verbatim>\<open>#else\<close> body is.
\<close>

fun run_body :: "body \<Rightarrow> diag list \<times> ps_sel option" where
  "run_body (Define p) = ([], Some p)"
| "run_body (Error d) = ([d], None)"

fun if_chain :: "(cond \<times> body) list \<Rightarrow> body \<Rightarrow> diag list \<times> ps_sel option" where
  "if_chain [] els = run_body els"
| "if_chain ((Expr b, bd) # gs) els = (if b then run_body bd else if_chain gs els)"
| "if_chain ((NoExpr, bd) # gs) els =
     (case if_chain gs els of (ds, r) \<Rightarrow> (ElifNoExpression # ds, r))"

text \<open>Lines 113-125: the chain that maps \<^verbatim>\<open>PS_TMR\<close> to \<^verbatim>\<open>PPS_PS\<close>.\<close>

definition PPS_PS :: "config \<Rightarrow> diag list \<times> ps_sel option" where
  "PPS_PS c = if_chain
     [ (Expr (pp (PS_TMR c) = 1), Define TMR0_PS1x),
       (Expr (pp (PS_TMR c) = 8), Define TMR0_PS8x),
       (Expr (pp (PS_TMR c) = 64), Define TMR0_PS64x),
       (Expr (pp (PS_TMR c) = 256), Define TMR0_PS256x),
       (NoExpr, Define TMR0_PS1024x) ]
     (Error InvalidPsTmr)"

text \<open>
  Lines 129-131, 134-136 and 139-141. Each \<^verbatim>\<open>#if\<close> stands alone: an
  \<^verbatim>\<open>#error\<close> is reported and preprocessing goes on to the next check.
\<close>

definition check_f_osc :: "config \<Rightarrow> diag list" where
  "check_f_osc c =
     (if pp (F_OSC c) \<noteq> pp (PS_FUSE c) * pp (PS_TMR c) * pp (TMR_TOP c) * pp (ISR_CNT c)
      then [FOscNotDivisible] else [])"

definition check_tmr_top :: "config \<Rightarrow> diag list" where
  "check_tmr_top c = (if 255 <s pp (TMR_TOP c) then [TmrTopTooLarge] else [])"

definition check_isr_cnt :: "config \<Rightarrow> diag list" where
  "check_isr_cnt c = (if 65536 - 1 <s pp (ISR_CNT c) then [IsrCntTooLarge] else [])"

text \<open>
  Lines 144-146 test \<^verbatim>\<open>PPS_CN > ISR_CNT\<close>. No macro \<^verbatim>\<open>PPS_CN\<close> is defined, and
  an identifier that is not a macro is read as 0 in an \<^verbatim>\<open>#if\<close> expression.
\<close>

definition PPS_CN :: intmax where
  "PPS_CN = 0"

definition check_pps_dc :: "config \<Rightarrow> diag list" where
  "check_pps_dc c = (if pp (ISR_CNT c) <s PPS_CN then [PpsDcTooBig] else [])"

text \<open>All diagnostics of a build, in the order of the file; the build succeeds when there are none.\<close>

definition build_diags :: "config \<Rightarrow> diag list" where
  "build_diags c =
     fst (PPS_PS c) @ check_f_osc c @ check_tmr_top c @ check_isr_cnt c @ check_pps_dc c"

definition accepted :: "config \<Rightarrow> bool" where
  "accepted c = (build_diags c = [])"

section \<open>The microcontroller\<close>

text \<open>
  The part of the machine the program touches: the shared counter \<^verbatim>\<open>cnt\<close>
  (line 150, \<^verbatim>\<open>volatile uint16_t\<close>), the port and data direction registers of
  port B, what the timer driver has been given, and the global interrupt flag.
  \<open>pin_log\<close> records every write to the output pins, oldest first.
\<close>

datatype pin_write = PinHigh | PinLow

datatype handler = Pps_out

record mcu =
  cnt :: "16 word"
  PORTB :: "8 word"
  DDRB :: "8 word"
  tmr0_ps :: "32 word option"
  tmr0_pr :: "int option"
  tmr0_isr :: "handler option"
  sreg_i :: bool
  pin_log :: "pin_write list"

text \<open>Line 100: \<^verbatim>\<open>#define PPS_PIN (1<<2)\<close>.\<close>

definition PPS_PIN :: "8 word" where
  "PPS_PIN = push_bit 2 1"

text \<open>
  The header \<^verbatim>\<open>gpio.h\<close> with the macros \<^verbatim>\<open>IO_SET\<close>, \<^verbatim>\<open>IO_CLR\<close> and
  \<^verbatim>\<open>IO_OUT\<close>, and the timer driver \<^verbatim>\<open>tmr0oc.h\<close>, are not among the sources.
  The program applies the macros to \<^verbatim>\<open>PPS_PORT\<close> = \<^verbatim>\<open>PORTB\<close> and
  \<^verbatim>\<open>PPS_DDR\<close> = \<^verbatim>\<open>DDRB\<close> only (lines 98-99).
\<close>

text \<open>
  Modelled from the spec: the macro \<^verbatim>\<open>IO_SET\<close> of the missing \<^verbatim>\<open>gpio.h\<close>,
  the \<^verbatim>\<open>drive_high(pin_mask)\<close> of section 6: the pins of the mask go high.
\<close>

definition IO_SET :: "8 word \<Rightarrow> mcu \<Rightarrow> mcu" where
  "IO_SET pins s = s \<lparr> PORTB := PORTB s OR pins, pin_log := pin_log s @ [PinHigh] \<rparr>"

text \<open>
  Modelled from the spec: the macro \<^verbatim>\<open>IO_CLR\<close> of the missing \<^verbatim>\<open>gpio.h\<close>,
  the \<^verbatim>\<open>drive_low(pin_mask)\<close> of section 6: the pins of the mask go low.
\<close>

definition IO_CLR :: "8 word \<Rightarrow> mcu \<Rightarrow> mcu" where
  "IO_CLR pins s = s \<lparr> PORTB := PORTB s AND NOT pins, pin_log := pin_log s @ [PinLow] \<rparr>"

text \<open>
  Modelled from the spec: the macro \<^verbatim>\<open>IO_OUT\<close> of the missing \<^verbatim>\<open>gpio.h\<close>,
  the \<^verbatim>\<open>set_direction_output(pin_mask)\<close> of section 6.
\<close>

definition IO_OUT :: "8 word \<Rightarrow> mcu \<Rightarrow> mcu" where
  "IO_OUT pins s = s \<lparr> DDRB := DDRB s OR pins \<rparr>"

text \<open>
  Modelled from the spec: \<^verbatim>\<open>tmr0_init\<close> of the missing \<^verbatim>\<open>tmr0oc.h\<close>, the
  \<^verbatim>\<open>configure(prescaler)\<close> of section 6. It keeps the prescaler it is given.
\<close>

definition tmr0_init :: "32 word \<Rightarrow> mcu \<Rightarrow> mcu" where
  "tmr0_init ps s = s \<lparr> tmr0_ps := Some ps \<rparr>"

text \<open>
  Modelled from the spec: \<^verbatim>\<open>tmr0a_setpr\<close> of the missing \<^verbatim>\<open>tmr0oc.h\<close>, the
  \<^verbatim>\<open>set_reload(value)\<close> of section 6. It keeps the value it is given.
\<close>

definition tmr0a_setpr :: "int \<Rightarrow> mcu \<Rightarrow> mcu" where
  "tmr0a_setpr pr s = s \<lparr> tmr0_pr := Some pr \<rparr>"

text \<open>
  Modelled from the spec: \<^verbatim>\<open>tmr0a_act\<close> of the missing \<^verbatim>\<open>tmr0oc.h\<close>, the
  \<^verbatim>\<open>install_boundary_handler(callback)\<close> of section 6.
\<close>

definition tmr0a_act :: "handler \<Rightarrow> mcu \<Rightarrow> mcu" where
  "tmr0a_act h s = s \<lparr> tmr0_isr := Some h \<rparr>"

text \<open>
  Modelled from the spec: \<^verbatim>\<open>ei\<close> (line 193), defined in no source file, the
  \<^verbatim>\<open>enable_interrupts()\<close> of section 6. By section 4.2 it is the caller of the
  initialization that enables global interrupts, with this call.
\<close>

definition ei :: "mcu \<Rightarrow> mcu" where
  "ei s = s \<lparr> sreg_i := True \<rparr>"

section \<open>The pulse engine (main.c, lines 149-200)\<close>

text \<open>Line 150: the initial value of \<^verbatim>\<open>cnt\<close>, converted to \<^verbatim>\<open>uint16_t\<close>.\<close>

definition cnt_initial :: "config \<Rightarrow> 16 word" where
  "cnt_initial c = word_of_int (ISR_CNT c)"

text \<open>Lines 153-161: the handler of the timer interrupt.\<close>

definition pps_out :: "config \<Rightarrow> mcu \<Rightarrow> mcu" where
  "pps_out c s =
     (let s1 = s \<lparr> cnt := cnt s - 1 \<rparr> in
      if cnt s1 = 0
      then IO_SET PPS_PIN (s1 \<lparr> cnt := word_of_int (ISR_CNT c) \<rparr>)
      else s1)"

text \<open>
  Lines 164-187. \<^verbatim>\<open>TMR0_PSMASK\<close> is a constant of the missing \<^verbatim>\<open>tmr0oc.h\<close> and
  is taken as a parameter.
\<close>

definition pps_init :: "config \<Rightarrow> 32 word \<Rightarrow> 32 word \<Rightarrow> mcu \<Rightarrow> mcu" where
  "pps_init c TMR0_PSMASK ps s =
     (let s1 = s \<lparr> cnt := word_of_int (ISR_CNT c) \<rparr>;
          s2 = IO_CLR PPS_PIN s1;
          s3 = IO_OUT PPS_PIN s2;
          ps1 = ps AND TMR0_PSMASK;
          s4 = tmr0_init ps1 s3;
          s5 = tmr0a_setpr (TMR_TOP c) s4
      in tmr0a_act Pps_out s5)"

text \<open>
  Line 196 tests \<^verbatim>\<open>cnt == ISR_CNT - PPS_DC\<close>. On the AVR an \<^verbatim>\<open>int\<close> has 16
  bits, and a decimal constant is an \<^verbatim>\<open>int\<close> when it is at most 32767 and a wider
  signed type otherwise. The difference of two \<^verbatim>\<open>int\<close>s is an \<^verbatim>\<open>int\<close>, which the
  comparison with the unsigned \<^verbatim>\<open>cnt\<close> converts to 16 bits unsigned; against a
  wider difference \<^verbatim>\<open>cnt\<close> is widened and the two are compared by value.
\<close>

definition int_const :: "int \<Rightarrow> bool" where
  "int_const v = (- 32767 \<le> v \<and> v \<le> 32767)"

definition duty_end :: "config \<Rightarrow> 16 word \<Rightarrow> bool" where
  "duty_end c x =
     (if int_const (ISR_CNT c) \<and> int_const (PPS_DC c)
      then x = word_of_int (ISR_CNT c - PPS_DC c)
      else uint x = ISR_CNT c - PPS_DC c)"

text \<open>Line 196: one pass of the body of \<^verbatim>\<open>while(1)\<close> in \<^verbatim>\<open>main\<close>.\<close>

definition main_loop_body :: "config \<Rightarrow> mcu \<Rightarrow> mcu" where
  "main_loop_body c s = (if duty_end c (cnt s) then IO_CLR PPS_PIN s else s)"

text \<open>
  Lines 191-193: \<^verbatim>\<open>main\<close> up to its loop, from the state \<open>s\<close> that
  \<^verbatim>\<open>mcu_init()\<close> leaves (a function of no source file). The value of
  \<^verbatim>\<open>PPS_PS\<close> is a constant of the missing \<^verbatim>\<open>tmr0oc.h\<close> and is the parameter
  \<open>ps\<close>.
\<close>

definition main_setup :: "config \<Rightarrow> 32 word \<Rightarrow> 32 word \<Rightarrow> mcu \<Rightarrow> mcu" where
  "main_setup c TMR0_PSMASK ps s = ei (pps_init c TMR0_PSMASK ps s)"

text \<open>
  One timer period as seen by the program: the handler runs, then the loop of
  \<^verbatim>\<open>main\<close> polls the counter.
\<close>

definition timer_period :: "config \<Rightarrow> mcu \<Rightarrow> mcu" where
  "timer_period c s = main_loop_body c (pps_out c s)"

section \<open>The up-counting variant (second listing of main.c, lines 201-289)\<close>

text \<open>
  Lines 219-222: \<^verbatim>\<open>F_CLK\<close>, \<^verbatim>\<open>TMR_TOP\<close> and \<^verbatim>\<open>PPS_CNT\<close> of the second listing.
  The operands are non-negative, where \<open>div\<close> is C's division.
\<close>

definition F_CLK_up :: int where
  "F_CLK_up = 19440000 div 1"

definition TMR_TOP_up :: int where
  "TMR_TOP_up = 250"

definition PPS_CNT :: int where
  "PPS_CNT = F_CLK_up div 64 div TMR_TOP_up"

text \<open>Line 234: the initial value of \<^verbatim>\<open>cnt\<close> in the second listing.\<close>

definition cnt_initial_up :: "16 word" where
  "cnt_initial_up = 0"

text \<open>
  Lines 237-245: the handler, with the repeat count as a parameter. \<^verbatim>\<open>PPS_CNT\<close>
  is an \<^verbatim>\<open>unsigned long\<close>: \<^verbatim>\<open>cnt\<close> is widened and compared by value.
\<close>

definition pps_out_up :: "int \<Rightarrow> mcu \<Rightarrow> mcu" where
  "pps_out_up pps_cnt s =
     (let s1 = s \<lparr> cnt := cnt s + 1 \<rparr> in
      if uint (cnt s1) = pps_cnt
      then IO_SET PPS_PIN (s1 \<lparr> cnt := 0 \<rparr>)
      else s1)"

section \<open>Observing the output pin\<close>

text \<open>The pin writes of one call of \<open>f\<close> in state \<open>s\<close>.\<close>

definition written :: "(mcu \<Rightarrow> mcu) \<Rightarrow> mcu \<Rightarrow> pin_write list" where
  "written f s = drop (length (pin_log s)) (pin_log (f s))"

text \<open>The call drives the pin high.\<close>

definition strobes :: "(mcu \<Rightarrow> mcu) \<Rightarrow> mcu \<Rightarrow> bool" where
  "strobes f s = (PinHigh \<in> set (written f s))"

text \<open>
  Among the first \<open>n\<close> calls of \<open>f\<close> from \<open>s\<close>, counted from 0, those that drive
  the pin high.
\<close>

definition rising_calls :: "(mcu \<Rightarrow> mcu) \<Rightarrow> mcu \<Rightarrow> nat \<Rightarrow> nat list" where
  "rising_calls f s n = filter (\<lambda>i. strobes f ((f ^^ i) s)) [0..<n]"

text \<open>
  The counter is between 1 and \<^verbatim>\<open>ISR_CNT\<close>: the range it keeps outside the
  handler.
\<close>

definition cnt_in_range :: "config \<Rightarrow> 16 word \<Rightarrow> bool" where
  "cnt_in_range c x = (1 \<le> uint x \<and> uint x \<le> ISR_CNT c)"

text \<open>
  A machine state for the examples below: \<^verbatim>\<open>cnt\<close> holds its initial value
  (line 150), the registers are clear, the timer driver has been given nothing and
  interrupts are disabled.
\<close>

definition power_on :: "config \<Rightarrow> mcu" where
  "power_on c = \<lparr> cnt = cnt_initial c, PORTB = 0, DDRB = 0, tmr0_ps = None,
                  tmr0_pr = None, tmr0_isr = None, sreg_i = False, pin_log = [] \<rparr>"

section \<open>The preprocessor checks: facts\<close>

lemma PPS_PS_diags: "set (fst (PPS_PS c)) \<subseteq> {ElifNoExpression, InvalidPsTmr}"
  by (simp add: PPS_PS_def)

lemma f_osc_in_build:
  "FOscNotDivisible \<in> set (build_diags c) \<longleftrightarrow> check_f_osc c = [FOscNotDivisible]"
  using PPS_PS_diags [of c]
  by (auto simp: build_diags_def check_f_osc_def check_tmr_top_def check_isr_cnt_def
      check_pps_dc_def)

lemma pp_eq_iff:
  assumes "0 \<le> a" "a < 2 ^ 64" "0 \<le> b" "b < 2 ^ 64"
  shows "pp a = pp b \<longleftrightarrow> a = b"
  using assms by (simp add: pp_def word_of_int_eq_iff take_bit_int_eq_self)

lemma pp_mult: "pp a * pp b = pp (a * b)"
  by (simp add: pp_def)

text \<open>
  In the data model the fuse divider is 1 or 8, the prescaler at most 1024, the reload
  value at most 255 and the repeat count at most 65535: the product stays far below
  the 64 bits of the preprocessor.
\<close>

lemma data_model_product:
  assumes "PS_FUSE c \<in> {1, 8}" "PS_TMR c \<in> {1, 8, 64, 256, 1024}"
    and "0 \<le> TMR_TOP c" "TMR_TOP c \<le> 255" "0 \<le> ISR_CNT c" "ISR_CNT c \<le> 65535"
  shows "0 \<le> PS_FUSE c * PS_TMR c * TMR_TOP c * ISR_CNT c"
    and "PS_FUSE c * PS_TMR c * TMR_TOP c * ISR_CNT c < 2 ^ 37"
proof -
  have f: "0 \<le> PS_FUSE c" "PS_FUSE c \<le> 8" using assms(1) by auto
  have t: "0 \<le> PS_TMR c" "PS_TMR c \<le> 1024" using assms(2) by auto
  have 1: "PS_FUSE c * PS_TMR c \<le> 8 * 1024"
    by (rule mult_mono [OF f(2) t(2)]) (simp_all add: t)
  have 2: "PS_FUSE c * PS_TMR c * TMR_TOP c \<le> 8 * 1024 * 255"
    by (rule mult_mono [OF 1 assms(4)]) (simp_all add: assms)
  have "PS_FUSE c * PS_TMR c * TMR_TOP c * ISR_CNT c \<le> 8 * 1024 * 255 * 65535"
    by (rule mult_mono [OF 2 assms(6)]) (simp_all add: assms)
  then show "PS_FUSE c * PS_TMR c * TMR_TOP c * ISR_CNT c < 2 ^ 37" by simp
  show "0 \<le> PS_FUSE c * PS_TMR c * TMR_TOP c * ISR_CNT c"
    using f t assms(3,5) by simp
qed

text \<open>
  C1. Whenever the constants are non-negative and their product is within the
  preprocessor's 64 bits (as it is for every configuration of the data model, where
  the product is below \<open>2 ^ 37\<close>), the build reports the factorization error exactly
  when \<^verbatim>\<open>F_OSC\<close> differs from \<^verbatim>\<open>PS_FUSE * PS_TMR * TMR_TOP * ISR_CNT\<close> computed
  exactly. In particular the shipped configuration raises no such error, and it does
  with \<^verbatim>\<open>TMR_TOP\<close> changed from 243 to 244.
\<close>

theorem f_osc_check_exact:
  assumes "0 \<le> F_OSC c" "F_OSC c < 2 ^ 64"
    and "0 \<le> PS_FUSE c" "0 \<le> PS_TMR c" "0 \<le> TMR_TOP c" "0 \<le> ISR_CNT c"
    and "PS_FUSE c * PS_TMR c * TMR_TOP c * ISR_CNT c < 2 ^ 64"
  shows "(FOscNotDivisible \<in> set (build_diags c)
           \<longleftrightarrow> F_OSC c \<noteq> PS_FUSE c * PS_TMR c * TMR_TOP c * ISR_CNT c)
         \<and> FOscNotDivisible \<in> set (build_diags (pps_cfg \<lparr> TMR_TOP := 244 \<rparr>))
         \<and> FOscNotDivisible \<notin> set (build_diags pps_cfg)"
proof -
  let ?p = "PS_FUSE c * PS_TMR c * TMR_TOP c * ISR_CNT c"
  have "0 \<le> ?p" using assms by simp
  then have "pp (F_OSC c) = pp ?p \<longleftrightarrow> F_OSC c = ?p"
    using assms by (intro pp_eq_iff) simp_all
  then have 1: "FOscNotDivisible \<in> set (build_diags c) \<longleftrightarrow> F_OSC c \<noteq> ?p"
    by (simp add: f_osc_in_build check_f_osc_def pp_mult)
  have 2: "FOscNotDivisible \<in> set (build_diags (pps_cfg \<lparr> TMR_TOP := 244 \<rparr>))"
    by (simp add: f_osc_in_build check_f_osc_def pps_cfg_def pp_def)
  have 3: "FOscNotDivisible \<notin> set (build_diags pps_cfg)"
    by (simp add: f_osc_in_build check_f_osc_def pps_cfg_def pp_def)
  from 1 2 3 show ?thesis by simp
qed

theorem f_osc_check_exact_witness:
  "0 \<le> F_OSC (pps_cfg \<lparr> TMR_TOP := 244 \<rparr>)
   \<and> PS_FUSE (pps_cfg \<lparr> TMR_TOP := 244 \<rparr>) * PS_TMR (pps_cfg \<lparr> TMR_TOP := 244 \<rparr>)
       * TMR_TOP (pps_cfg \<lparr> TMR_TOP := 244 \<rparr>) * ISR_CNT (pps_cfg \<lparr> TMR_TOP := 244 \<rparr>)
       = 19520000
   \<and> F_OSC (pps_cfg \<lparr> TMR_TOP := 244 \<rparr>) = 19440000
   \<and> FOscNotDivisible \<in> set (build_diags (pps_cfg \<lparr> TMR_TOP := 244 \<rparr>))"
  using f_osc_check_exact [of "pps_cfg \<lparr> TMR_TOP := 244 \<rparr>"]
  by (simp add: pps_cfg_def)

lemma sint_pp: "- (2 ^ 63) \<le> x \<Longrightarrow> x < 2 ^ 63 \<Longrightarrow> sint (pp x) = x"
  by (simp add: pp_def sint_sbintrunc' signed_take_bit_int_eq_self)

lemma tmr_top_in_build:
  "TmrTopTooLarge \<in> set (build_diags c) \<longleftrightarrow> 255 <s pp (TMR_TOP c)"
  using PPS_PS_diags [of c]
  by (auto simp: build_diags_def check_f_osc_def check_tmr_top_def check_isr_cnt_def
      check_pps_dc_def)

lemma isr_cnt_in_build:
  "IsrCntTooLarge \<in> set (build_diags c) \<longleftrightarrow> 65535 <s pp (ISR_CNT c)"
  using PPS_PS_diags [of c]
  by (auto simp: build_diags_def check_f_osc_def check_tmr_top_def check_isr_cnt_def
      check_pps_dc_def)

lemma pps_dc_in_build:
  "PpsDcTooBig \<in> set (build_diags c) \<longleftrightarrow> pp (ISR_CNT c) <s 0"
  using PPS_PS_diags [of c]
  by (auto simp: build_diags_def check_f_osc_def check_tmr_top_def check_isr_cnt_def
      check_pps_dc_def PPS_CN_def)

lemma accepted_pps_cfg: "accepted pps_cfg"
  by (simp add: accepted_def build_diags_def PPS_PS_def check_f_osc_def check_tmr_top_def
      check_isr_cnt_def check_pps_dc_def PPS_CN_def pps_cfg_def pp_def word_sless_alt)

text \<open>The four prescalers whose groups have an expression are mapped.\<close>

lemma PPS_PS_supported:
  "PPS_PS (c \<lparr> PS_TMR := 1 \<rparr>) = ([], Some TMR0_PS1x)"
  "PPS_PS (c \<lparr> PS_TMR := 8 \<rparr>) = ([], Some TMR0_PS8x)"
  "PPS_PS (c \<lparr> PS_TMR := 64 \<rparr>) = ([], Some TMR0_PS64x)"
  "PPS_PS (c \<lparr> PS_TMR := 256 \<rparr>) = ([], Some TMR0_PS256x)"
  by (simp_all add: PPS_PS_def pp_def)

lemma PPS_PS_never_1024: "snd (PPS_PS c) \<noteq> Some TMR0_PS1024x"
  by (simp add: PPS_PS_def)

text \<open>
  C6. With \<^verbatim>\<open>PS_TMR\<close> = 1024, a prescaler the header comment (line 34) and the
  comment of line 93 list as valid, the chain of lines 113-125 does not define
  \<^verbatim>\<open>PPS_PS\<close>: the \<^verbatim>\<open>#elif\<close> of line 121 lacks its expression
  \<^verbatim>\<open>PS_TMR == 1024\<close>, so it is diagnosed, its group is not taken and the
  \<^verbatim>\<open>#else\<close> reports the invalid prescaler. The build fails where the claim has
  the mapping succeed.
\<close>

theorem ps_tmr_1024_fails:
  "PPS_PS (c \<lparr> PS_TMR := 1024 \<rparr>) = ([ElifNoExpression, InvalidPsTmr], None)"
  by (simp add: PPS_PS_def pp_def)

text \<open>
  C7, as stated, fails: a reload value of 31 and a repeat count of 0 are outside
  \<open>[32, 255]\<close> and \<open>[1, 65535]\<close>, and the build accepts both configurations.
\<close>

theorem range_checks_counterexample:
  "TMR_TOP (pps_cfg \<lparr> TMR_TOP := 31, F_OSC := 2480000 \<rparr>) < 32
   \<and> build_diags (pps_cfg \<lparr> TMR_TOP := 31, F_OSC := 2480000 \<rparr>) = []
   \<and> ISR_CNT (pps_cfg \<lparr> ISR_CNT := 0, F_OSC := 0 \<rparr>) < 1
   \<and> build_diags (pps_cfg \<lparr> ISR_CNT := 0, F_OSC := 0 \<rparr>) = []"
  by (simp add: build_diags_def PPS_PS_def check_f_osc_def check_tmr_top_def check_isr_cnt_def
      check_pps_dc_def PPS_CN_def pps_cfg_def pp_def word_sless_alt)

text \<open>
  C7, amended. The range checks of lines 134-141 guard the upper ends only: for
  constants the preprocessor can represent, the reload error is raised exactly when
  \<^verbatim>\<open>TMR_TOP\<close> is above 255 and the repeat-count error exactly when \<^verbatim>\<open>ISR_CNT\<close> is
  above 65535. Values below 32 and below 1 raise neither.
\<close>

theorem range_checks_upper_only:
  assumes "- (2 ^ 63) \<le> TMR_TOP c" "TMR_TOP c < 2 ^ 63"
    and "- (2 ^ 63) \<le> ISR_CNT c" "ISR_CNT c < 2 ^ 63"
  shows "(TmrTopTooLarge \<in> set (build_diags c) \<longleftrightarrow> 255 < TMR_TOP c)
         \<and> (IsrCntTooLarge \<in> set (build_diags c) \<longleftrightarrow> 65535 < ISR_CNT c)"
  using assms by (simp add: tmr_top_in_build isr_cnt_in_build word_sless_alt sint_pp)

theorem range_checks_upper_only_witness:
  "TMR_TOP (pps_cfg \<lparr> TMR_TOP := 256, ISR_CNT := 65536 \<rparr>) = 256
   \<and> ISR_CNT (pps_cfg \<lparr> TMR_TOP := 256, ISR_CNT := 65536 \<rparr>) = 65536
   \<and> TmrTopTooLarge \<in> set (build_diags (pps_cfg \<lparr> TMR_TOP := 256, ISR_CNT := 65536 \<rparr>))
   \<and> IsrCntTooLarge \<in> set (build_diags (pps_cfg \<lparr> TMR_TOP := 256, ISR_CNT := 65536 \<rparr>))"
  using range_checks_upper_only [of "pps_cfg \<lparr> TMR_TOP := 256, ISR_CNT := 65536 \<rparr>"]
  by simp

text \<open>
  C5. The check of lines 143-146 is meant to reject a duty count above
  \<^verbatim>\<open>ISR_CNT\<close> (comment of line 143, message of line 145), but its test names
  \<^verbatim>\<open>PPS_CN\<close>, which is no macro and reads as 0, where \<^verbatim>\<open>PPS_DC\<close> is meant. The
  check therefore never reads \<^verbatim>\<open>PPS_DC\<close>: whatever the duty count, the
  diagnostics of the build are the same, and the shipped configuration with a duty
  count of 2000, above its repeat count of 1250, builds without a diagnostic where the
  claim has it rejected.
\<close>

theorem pps_dc_check_ignores_pps_dc:
  "check_pps_dc (c \<lparr> PPS_DC := d \<rparr>) = check_pps_dc c
   \<and> build_diags (c \<lparr> PPS_DC := d \<rparr>) = build_diags c
   \<and> ISR_CNT (pps_cfg \<lparr> PPS_DC := 2000 \<rparr>) < PPS_DC (pps_cfg \<lparr> PPS_DC := 2000 \<rparr>)
   \<and> build_diags (pps_cfg \<lparr> PPS_DC := 2000 \<rparr>) = []"
proof -
  have 1: "check_pps_dc (c \<lparr> PPS_DC := d \<rparr>) = check_pps_dc c"
    by (simp add: check_pps_dc_def)
  have 2: "build_diags (c \<lparr> PPS_DC := d \<rparr>) = build_diags c"
    by (simp add: build_diags_def PPS_PS_def check_f_osc_def check_tmr_top_def
        check_isr_cnt_def check_pps_dc_def)
  have 3: "ISR_CNT (pps_cfg \<lparr> PPS_DC := 2000 \<rparr>) < PPS_DC (pps_cfg \<lparr> PPS_DC := 2000 \<rparr>)"
    by (simp add: pps_cfg_def)
  have 4: "build_diags (pps_cfg \<lparr> PPS_DC := 2000 \<rparr>) = []"
    by (simp add: build_diags_def PPS_PS_def check_f_osc_def check_tmr_top_def
        check_isr_cnt_def check_pps_dc_def PPS_CN_def pps_cfg_def pp_def word_sless_alt)
  from 1 2 3 4 show ?thesis by simp
qed

section \<open>The handler: facts\<close>

lemma uint_cnt_of_int:
  "0 \<le> n \<Longrightarrow> n \<le> 65535 \<Longrightarrow> uint (word_of_int n :: 16 word) = n"
  by (simp add: uint_word_of_int)

lemma uint_dec:
  "1 \<le> uint (x :: 16 word) \<Longrightarrow> uint (x - 1) = uint x - 1"
  by (simp add: uint_sub_if' word_le_def)

lemma uint_eq_1_iff: "uint (x :: 16 word) = 1 \<longleftrightarrow> x = 1"
  by (metis uint_1 word_uint_eq_iff)

lemma pps_out_cnt:
  assumes "1 \<le> ISR_CNT c" "ISR_CNT c \<le> 65535" "1 \<le> uint (cnt s)"
  shows "uint (cnt (pps_out c s)) = (if uint (cnt s) = 1 then ISR_CNT c else uint (cnt s) - 1)"
  using assms by (simp add: pps_out_def Let_def IO_SET_def uint_eq_1_iff uint_dec uint_cnt_of_int)

lemma pps_out_cnt_eq:
  "cnt (pps_out c s) = (if cnt s = 1 then word_of_int (ISR_CNT c) else cnt s - 1)"
  by (simp add: pps_out_def Let_def IO_SET_def)

lemma pps_out_log:
  "pin_log (pps_out c s) = pin_log s @ (if uint (cnt s) = 1 then [PinHigh] else [])"
  by (simp add: pps_out_def Let_def IO_SET_def uint_eq_1_iff)

lemma pps_out_strobes: "strobes (pps_out c) s \<longleftrightarrow> uint (cnt s) = 1"
  by (simp add: strobes_def written_def pps_out_log)

lemma int_mod_succ:
  fixes a N :: int
  assumes "0 < N"
  shows "(a + 1) mod N = (if a mod N = N - 1 then 0 else a mod N + 1)"
proof -
  have "(a + 1) mod N = (a mod N + 1) mod N" by (simp add: mod_add_left_eq)
  moreover have "0 \<le> a mod N" "a mod N < N" using assms by simp_all
  ultimately show ?thesis by (auto simp: mod_pos_pos_trivial)
qed

text \<open>
  The counter after \<open>n\<close> calls of the handler: the calls since the last strobe are
  counted modulo \<^verbatim>\<open>ISR_CNT\<close>.
\<close>

lemma funpow_pps_out_cnt:
  assumes "1 \<le> ISR_CNT c" "ISR_CNT c \<le> 65535"
    and "1 \<le> uint (cnt s)" "uint (cnt s) \<le> ISR_CNT c"
  shows "uint (cnt ((pps_out c ^^ n) s))
           = ISR_CNT c - (ISR_CNT c - uint (cnt s) + int n) mod ISR_CNT c"
proof (induction n)
  case 0
  have "(ISR_CNT c - uint (cnt s)) mod ISR_CNT c = ISR_CNT c - uint (cnt s)"
    using assms by (intro mod_pos_pos_trivial) simp_all
  then show ?case by simp
next
  case (Suc n)
  let ?N = "ISR_CNT c"
  let ?a = "?N - uint (cnt s) + int n"
  let ?t = "(pps_out c ^^ n) s"
  have N: "0 < ?N" using assms by simp
  have b: "0 \<le> ?a mod ?N" "?a mod ?N < ?N" using N by simp_all
  then have ge1: "1 \<le> uint (cnt ?t)" using Suc.IH by simp
  have "uint (cnt (pps_out c ?t)) = (if uint (cnt ?t) = 1 then ?N else uint (cnt ?t) - 1)"
    using assms(1,2) ge1 by (rule pps_out_cnt)
  also have "\<dots> = ?N - (?a + 1) mod ?N"
    using Suc.IH b by (simp add: int_mod_succ [OF N])
  finally show ?case by (simp add: algebra_simps)
qed

lemma pps_out_strobes_at:
  assumes "1 \<le> ISR_CNT c" "ISR_CNT c \<le> 65535"
    and "1 \<le> uint (cnt s)" "uint (cnt s) \<le> ISR_CNT c"
  shows "strobes (pps_out c) ((pps_out c ^^ n) s)
           \<longleftrightarrow> (ISR_CNT c - uint (cnt s) + int n + 1) mod ISR_CNT c = 0"
proof -
  let ?N = "ISR_CNT c"
  let ?a = "?N - uint (cnt s) + int n"
  have N: "0 < ?N" using assms by simp
  have "strobes (pps_out c) ((pps_out c ^^ n) s) \<longleftrightarrow> ?a mod ?N = ?N - 1"
    by (auto simp add: pps_out_strobes funpow_pps_out_cnt [OF assms])
  also have "\<dots> \<longleftrightarrow> (?a + 1) mod ?N = 0"
  proof -
    have "0 \<le> ?a mod ?N" using N by simp
    then show ?thesis by (auto simp: int_mod_succ [OF N])
  qed
  finally show ?thesis .
qed

lemma filter_upt_single:
  assumes "a < n" and "\<And>i. i < n \<Longrightarrow> P i \<longleftrightarrow> i = a"
  shows "filter P [0..<n] = [a]"
proof -
  have "filter P [0..<n] = filter (\<lambda>i. i = a) [0..<n]"
    using assms(2) by (intro filter_cong) simp_all
  also have "\<dots> = [a]"
    using assms(1)
  proof (induction n)
    case 0 then show ?case by simp
  next
    case (Suc n)
    show ?case
    proof (cases "a = n")
      case True
      have "filter (\<lambda>i. i = n) [0..<n] = []" by (simp add: filter_empty_conv)
      with True show ?thesis by simp
    next
      case False
      with Suc show ?thesis by simp
    qed
  qed
  finally show ?thesis .
qed

lemma mod_window:
  fixes N k :: int
  assumes "1 \<le> k" "k \<le> N" "i < nat N"
  shows "(N - k + int i + 1) mod N = 0 \<longleftrightarrow> i = nat (k - 1)"
proof (cases "int i < k - 1")
  case True
  then have m: "(N - k + int i + 1) mod N = N - k + int i + 1"
    using assms by (intro mod_pos_pos_trivial) simp_all
  have "0 < N - k + int i + 1" using assms by simp
  with m have "(N - k + int i + 1) mod N \<noteq> 0" by simp
  moreover have "i \<noteq> nat (k - 1)" using True by auto
  ultimately show ?thesis by simp
next
  case False
  show ?thesis
  proof (cases "int i = k - 1")
    case True
    then have "N - k + int i + 1 = N" by simp
    with True show ?thesis by auto
  next
    case F2: False
    have "(N - k + int i + 1) mod N = (int i + 1 - k + N) mod N" by (simp add: algebra_simps)
    also have "\<dots> = (int i + 1 - k) mod N" by simp
    also have "\<dots> = int i + 1 - k"
      using assms False F2 by (intro mod_pos_pos_trivial) simp_all
    finally have m: "(N - k + int i + 1) mod N = int i + 1 - k" .
    have "0 < int i + 1 - k" using False F2 by simp
    with m have "(N - k + int i + 1) mod N \<noteq> 0" by simp
    moreover have "i \<noteq> nat (k - 1)" using F2 assms by auto
    ultimately show ?thesis by simp
  qed
qed

lemma rising_calls_period:
  assumes "1 \<le> ISR_CNT c" "ISR_CNT c \<le> 65535"
    and "1 \<le> uint (cnt s)" "uint (cnt s) \<le> ISR_CNT c"
  shows "rising_calls (pps_out c) s (nat (ISR_CNT c)) = [nat (uint (cnt s) - 1)]"
  unfolding rising_calls_def
proof (rule filter_upt_single)
  show "nat (uint (cnt s) - 1) < nat (ISR_CNT c)" using assms by simp
next
  fix i assume "i < nat (ISR_CNT c)"
  then show "strobes (pps_out c) ((pps_out c ^^ i) s) \<longleftrightarrow> i = nat (uint (cnt s) - 1)"
    by (simp add: pps_out_strobes_at [OF assms] mod_window [OF assms(3,4)])
qed

lemma cnt_after_period:
  assumes "1 \<le> ISR_CNT c" "ISR_CNT c \<le> 65535"
    and "1 \<le> uint (cnt s)" "uint (cnt s) \<le> ISR_CNT c"
  shows "cnt ((pps_out c ^^ nat (ISR_CNT c)) s) = cnt s"
proof -
  let ?N = "ISR_CNT c"
  have "int (nat ?N) = ?N" using assms by simp
  then have "(?N - uint (cnt s) + int (nat ?N)) mod ?N = (?N - uint (cnt s)) mod ?N"
    by (metis mod_add_self2)
  also have "\<dots> = ?N - uint (cnt s)"
    using assms by (intro mod_pos_pos_trivial) simp_all
  finally have "uint (cnt ((pps_out c ^^ nat ?N) s)) = uint (cnt s)"
    by (simp add: funpow_pps_out_cnt [OF assms])
  then show ?thesis by (simp add: word_uint_eq_iff)
qed

lemma rising_calls_Suc:
  "rising_calls f s (Suc n) = rising_calls f s n @ (if strobes f ((f ^^ n) s) then [n] else [])"
  by (simp add: rising_calls_def)

lemma funpow_pps_out_log:
  "pin_log ((pps_out c ^^ n) s)
     = pin_log s @ replicate (length (rising_calls (pps_out c) s n)) PinHigh"
proof (induction n)
  case 0 show ?case by (simp add: rising_calls_def)
next
  case (Suc n)
  show ?case
    by (simp add: rising_calls_Suc pps_out_log pps_out_strobes Suc.IH
          replicate_append_same)
qed

text \<open>
  C2. From every counter value between 1 and \<^verbatim>\<open>ISR_CNT\<close> (the values the counter
  takes after initialization), \<^verbatim>\<open>ISR_CNT\<close> calls of \<^verbatim>\<open>pps_out\<close> contain exactly
  one call that drives the pin high, write the pin high once and nothing else, and
  leave the counter at the value it had before.
\<close>

theorem pps_out_one_strobe_per_period:
  assumes "1 \<le> ISR_CNT c" "ISR_CNT c \<le> 65535" and "cnt_in_range c (cnt s)"
  shows "length (rising_calls (pps_out c) s (nat (ISR_CNT c))) = 1
         \<and> pin_log ((pps_out c ^^ nat (ISR_CNT c)) s) = pin_log s @ [PinHigh]
         \<and> cnt ((pps_out c ^^ nat (ISR_CNT c)) s) = cnt s"
proof -
  from assms(3) have r: "1 \<le> uint (cnt s)" "uint (cnt s) \<le> ISR_CNT c"
    by (simp_all add: cnt_in_range_def)
  have 1: "length (rising_calls (pps_out c) s (nat (ISR_CNT c))) = 1"
    by (simp add: rising_calls_period [OF assms(1,2) r])
  then have 2: "pin_log ((pps_out c ^^ nat (ISR_CNT c)) s) = pin_log s @ [PinHigh]"
    by (simp add: funpow_pps_out_log)
  have 3: "cnt ((pps_out c ^^ nat (ISR_CNT c)) s) = cnt s"
    by (rule cnt_after_period [OF assms(1,2) r])
  from 1 2 3 show ?thesis by simp
qed

theorem pps_out_one_strobe_per_period_witness:
  "cnt_in_range pps_cfg (cnt (power_on pps_cfg \<lparr> cnt := 700 \<rparr>))
   \<and> length (rising_calls (pps_out pps_cfg) (power_on pps_cfg \<lparr> cnt := 700 \<rparr>) 1250) = 1
   \<and> pin_log ((pps_out pps_cfg ^^ 1250) (power_on pps_cfg \<lparr> cnt := 700 \<rparr>)) = [PinHigh]
   \<and> cnt ((pps_out pps_cfg ^^ 1250) (power_on pps_cfg \<lparr> cnt := 700 \<rparr>)) = 700"
proof -
  have h1: "1 \<le> ISR_CNT pps_cfg" and h2: "ISR_CNT pps_cfg \<le> 65535"
    by (simp_all add: pps_cfg_def)
  have h3: "cnt_in_range pps_cfg (cnt (power_on pps_cfg \<lparr> cnt := 700 \<rparr>))"
    by (simp add: cnt_in_range_def pps_cfg_def)
  have n: "nat (ISR_CNT pps_cfg) = 1250" by (simp add: pps_cfg_def)
  have l: "pin_log (power_on pps_cfg \<lparr> cnt := 700 \<rparr>) = []"
    and k: "cnt (power_on pps_cfg \<lparr> cnt := 700 \<rparr>) = 700"
    by (simp_all add: power_on_def)
  from pps_out_one_strobe_per_period [OF h1 h2 h3] h3 show ?thesis
    unfolding n l k by simp
qed

section \<open>Initialization and the range of the counter\<close>

lemma clr_and_pin: "(x AND NOT p) AND p = (0 :: 8 word)"
  by (rule bit_eqI) (auto simp: bit_simps)

lemma set_and_pin: "(x OR p) AND p = (p :: 8 word)"
  by (rule bit_eqI) (auto simp: bit_simps)

lemma pps_init_cnt: "cnt (pps_init c TMR0_PSMASK ps s) = cnt_initial c"
  by (simp add: pps_init_def Let_def IO_CLR_def IO_OUT_def tmr0_init_def tmr0a_setpr_def
      tmr0a_act_def cnt_initial_def)

lemma main_setup_cnt: "cnt (main_setup c TMR0_PSMASK ps s) = cnt_initial c"
  by (simp add: main_setup_def ei_def pps_init_cnt)

text \<open>
  C8. When \<^verbatim>\<open>pps_init(ps)\<close> returns, the counter holds its starting value
  (\<^verbatim>\<open>ISR_CNT\<close> itself when that fits 16 bits), the output pin has been written low
  and is an output, the timer driver has been given the masked prescaler, the reload
  value \<^verbatim>\<open>TMR_TOP\<close> and the handler \<^verbatim>\<open>pps_out\<close>, and the global interrupt flag
  is as it was before the call.
\<close>

theorem pps_init_post:
  "(let s1 = pps_init c TMR0_PSMASK ps s in
      cnt s1 = cnt_initial c
    \<and> (0 \<le> ISR_CNT c \<and> ISR_CNT c \<le> 65535 \<longrightarrow> uint (cnt s1) = ISR_CNT c)
    \<and> PORTB s1 AND PPS_PIN = 0
    \<and> pin_log s1 = pin_log s @ [PinLow]
    \<and> DDRB s1 AND PPS_PIN = PPS_PIN
    \<and> tmr0_ps s1 = Some (ps AND TMR0_PSMASK)
    \<and> tmr0_pr s1 = Some (TMR_TOP c)
    \<and> tmr0_isr s1 = Some Pps_out
    \<and> sreg_i s1 = sreg_i s)"
  by (simp add: pps_init_def Let_def IO_CLR_def IO_OUT_def tmr0_init_def tmr0a_setpr_def
      tmr0a_act_def cnt_initial_def uint_cnt_of_int clr_and_pin set_and_pin)

theorem pps_init_post_witness:
  "0 \<le> ISR_CNT pps_cfg \<and> ISR_CNT pps_cfg \<le> 65535
   \<and> uint (cnt (pps_init pps_cfg 7 2 (power_on pps_cfg))) = 1250
   \<and> pin_log (pps_init pps_cfg 7 2 (power_on pps_cfg)) = [PinLow]
   \<and> tmr0_ps (pps_init pps_cfg 7 2 (power_on pps_cfg)) = Some 2
   \<and> tmr0_pr (pps_init pps_cfg 7 2 (power_on pps_cfg)) = Some 243
   \<and> \<not> sreg_i (pps_init pps_cfg 7 2 (power_on pps_cfg))"
proof -
  let ?s1 = "pps_init pps_cfg 7 2 (power_on pps_cfg)"
  note t = pps_init_post [of pps_cfg 7 2 "power_on pps_cfg", unfolded Let_def]
  have h: "0 \<le> ISR_CNT pps_cfg \<and> ISR_CNT pps_cfg \<le> 65535" by (simp add: pps_cfg_def)
  from t h have a: "uint (cnt ?s1) = ISR_CNT pps_cfg" by blast
  from t have b: "pin_log ?s1 = pin_log (power_on pps_cfg) @ [PinLow]" by blast
  from t have d: "tmr0_ps ?s1 = Some (2 AND 7)" by blast
  from t have e: "tmr0_pr ?s1 = Some (TMR_TOP pps_cfg)" by blast
  from t have f: "sreg_i ?s1 = sreg_i (power_on pps_cfg)" by blast
  have m: "(2 :: 32 word) AND 7 = 2" by simp
  show ?thesis
    unfolding a b d e f m by (simp add: pps_cfg_def power_on_def)
qed

text \<open>
  C10. With \<^verbatim>\<open>ISR_CNT\<close> between 1 and 65535, the counter is between 1 and
  \<^verbatim>\<open>ISR_CNT\<close> initially and after \<^verbatim>\<open>pps_init\<close>, and a call of \<^verbatim>\<open>pps_out\<close>
  entered in that range returns in it. In that range the decrement does not wrap, and
  the call drives the pin high exactly when it is entered with the counter at 1.
\<close>

theorem cnt_range_invariant:
  assumes "1 \<le> ISR_CNT c" "ISR_CNT c \<le> 65535"
  shows "cnt_in_range c (cnt_initial c)
       \<and> cnt_in_range c (cnt (pps_init c TMR0_PSMASK ps s0))
       \<and> (cnt_in_range c (cnt s) \<longrightarrow>
             cnt_in_range c (cnt (pps_out c s))
           \<and> uint (cnt s - 1) = uint (cnt s) - 1
           \<and> (strobes (pps_out c) s \<longleftrightarrow> uint (cnt s) = 1))"
proof -
  have i: "uint (cnt_initial c) = ISR_CNT c"
    using assms by (simp add: cnt_initial_def uint_cnt_of_int)
  then have 1: "cnt_in_range c (cnt_initial c)"
    using assms by (simp add: cnt_in_range_def)
  then have 2: "cnt_in_range c (cnt (pps_init c TMR0_PSMASK ps s0))"
    by (simp add: pps_init_cnt)
  have 3: "cnt_in_range c (cnt (pps_out c s)) \<and> uint (cnt s - 1) = uint (cnt s) - 1
           \<and> (strobes (pps_out c) s \<longleftrightarrow> uint (cnt s) = 1)"
    if r: "cnt_in_range c (cnt s)"
  proof -
    from r have k: "1 \<le> uint (cnt s)" "uint (cnt s) \<le> ISR_CNT c"
      by (simp_all add: cnt_in_range_def)
    have "cnt_in_range c (cnt (pps_out c s))"
      using assms k by (simp add: cnt_in_range_def pps_out_cnt [OF assms k(1)])
    moreover have "uint (cnt s - 1) = uint (cnt s) - 1" using k(1) by (rule uint_dec)
    ultimately show ?thesis by (simp add: pps_out_strobes)
  qed
  from 1 2 3 show ?thesis by blast
qed

theorem cnt_range_invariant_witness:
  "cnt_in_range pps_cfg (cnt (power_on pps_cfg \<lparr> cnt := 1 \<rparr>))
   \<and> cnt_in_range pps_cfg (cnt (pps_out pps_cfg (power_on pps_cfg \<lparr> cnt := 1 \<rparr>)))
   \<and> strobes (pps_out pps_cfg) (power_on pps_cfg \<lparr> cnt := 1 \<rparr>)
   \<and> cnt_in_range pps_cfg (cnt_initial pps_cfg)"
proof -
  have h1: "1 \<le> ISR_CNT pps_cfg" and h2: "ISR_CNT pps_cfg \<le> 65535"
    by (simp_all add: pps_cfg_def)
  have h3: "cnt_in_range pps_cfg (cnt (power_on pps_cfg \<lparr> cnt := 1 \<rparr>))"
    by (simp add: cnt_in_range_def pps_cfg_def)
  have k: "uint (cnt (power_on pps_cfg \<lparr> cnt := 1 \<rparr>)) = 1" by simp
  from cnt_range_invariant [OF h1 h2, of _ _ _ "power_on pps_cfg \<lparr> cnt := 1 \<rparr>"] h3 k
  show ?thesis by blast
qed

section \<open>The handler and the loop of main together\<close>

lemma duty_end_iff:
  assumes "0 < PPS_DC c" "PPS_DC c < ISR_CNT c" "ISR_CNT c \<le> 65535"
  shows "duty_end c x \<longleftrightarrow> uint x = ISR_CNT c - PPS_DC c"
proof -
  have "uint (word_of_int (ISR_CNT c - PPS_DC c) :: 16 word) = ISR_CNT c - PPS_DC c"
    using assms by (intro uint_cnt_of_int) simp_all
  then have "x = word_of_int (ISR_CNT c - PPS_DC c) \<longleftrightarrow> uint x = ISR_CNT c - PPS_DC c"
    by (metis word_uint_eq_iff)
  then show ?thesis by (simp add: duty_end_def)
qed

lemma main_loop_body_cnt: "cnt (main_loop_body c s) = cnt s"
  by (simp add: main_loop_body_def IO_CLR_def)

lemma main_loop_body_log:
  "pin_log (main_loop_body c s) = pin_log s @ (if duty_end c (cnt s) then [PinLow] else [])"
  by (simp add: main_loop_body_def IO_CLR_def)

text \<open>Polling again within the same timer period leaves the level of the pin.\<close>

lemma main_loop_body_again:
  "PORTB (main_loop_body c (main_loop_body c s)) = PORTB (main_loop_body c s)"
  by (simp add: main_loop_body_def IO_CLR_def word_bw_assocs)

lemma timer_period_cnt: "cnt (timer_period c s) = cnt (pps_out c s)"
  by (simp add: timer_period_def main_loop_body_cnt)

lemma funpow_timer_period_cnt:
  "cnt ((timer_period c ^^ n) s) = cnt ((pps_out c ^^ n) s)"
proof (induction n)
  case 0 show ?case by simp
next
  case (Suc n)
  then show ?case by (simp add: timer_period_cnt pps_out_cnt_eq)
qed

lemma timer_period_log:
  "pin_log (timer_period c s)
     = pin_log s @ (if uint (cnt s) = 1 then [PinHigh] else [])
       @ (if duty_end c (cnt (pps_out c s)) then [PinLow] else [])"
  by (simp add: timer_period_def main_loop_body_log main_loop_body_cnt pps_out_log)

lemma timer_period_written:
  "written (timer_period c) s
     = (if uint (cnt s) = 1 then [PinHigh] else [])
       @ (if duty_end c (cnt (pps_out c s)) then [PinLow] else [])"
  by (simp add: written_def timer_period_log)

lemma timer_period_PORTB:
  "PORTB (timer_period c s)
     = (let p = (if uint (cnt s) = 1 then PORTB s OR PPS_PIN else PORTB s) in
        if duty_end c (cnt (pps_out c s)) then p AND NOT PPS_PIN else p)"
  by (simp add: timer_period_def main_loop_body_def pps_out_def IO_CLR_def IO_SET_def Let_def
      uint_eq_1_iff)

text \<open>
  In the period after \<open>n\<close> periods the handler strobes when the calls since the last
  strobe, counted modulo \<^verbatim>\<open>ISR_CNT\<close>, come to 0, and the loop sees the end of the
  duty window when they come to \<^verbatim>\<open>PPS_DC\<close>.
\<close>

lemma timer_period_phase:
  fixes n :: nat
  assumes "0 < PPS_DC c" "PPS_DC c < ISR_CNT c" "ISR_CNT c \<le> 65535"
    and "1 \<le> uint (cnt s)" "uint (cnt s) \<le> ISR_CNT c"
  defines "e \<equiv> (ISR_CNT c - uint (cnt s) + int n + 1) mod ISR_CNT c"
  shows "uint (cnt ((timer_period c ^^ n) s)) = 1 \<longleftrightarrow> e = 0"
    and "duty_end c (cnt (pps_out c ((timer_period c ^^ n) s))) \<longleftrightarrow> e = PPS_DC c"
proof -
  let ?N = "ISR_CNT c"
  let ?t = "(timer_period c ^^ n) s"
  have v: "1 \<le> ?N" "?N \<le> 65535" using assms by simp_all
  have c0: "cnt ?t = cnt ((pps_out c ^^ n) s)" by (rule funpow_timer_period_cnt)
  show "uint (cnt ?t) = 1 \<longleftrightarrow> e = 0"
    using pps_out_strobes_at [OF v assms(4,5), of n] by (simp add: c0 pps_out_strobes e_def)
  have c1: "cnt (pps_out c ?t) = cnt ((pps_out c ^^ Suc n) s)"
    using c0 by (simp add: pps_out_cnt_eq)
  have "uint (cnt ((pps_out c ^^ Suc n) s))
          = ?N - (?N - uint (cnt s) + int (Suc n)) mod ?N"
    by (rule funpow_pps_out_cnt [OF v assms(4,5)])
  also have "?N - uint (cnt s) + int (Suc n) = ?N - uint (cnt s) + int n + 1" by simp
  finally have "uint (cnt (pps_out c ?t)) = ?N - e"
    using c1 by (simp add: e_def)
  then show "duty_end c (cnt (pps_out c ?t)) \<longleftrightarrow> e = PPS_DC c"
    by (auto simp add: duty_end_iff [OF assms(1-3)])
qed

lemma timer_period_written_at:
  assumes "0 < PPS_DC c" "PPS_DC c < ISR_CNT c" "ISR_CNT c \<le> 65535"
    and "1 \<le> uint (cnt s)" "uint (cnt s) \<le> ISR_CNT c"
  shows "written (timer_period c) ((timer_period c ^^ n) s)
     = (let e = (ISR_CNT c - uint (cnt s) + int n + 1) mod ISR_CNT c in
        if e = 0 then [PinHigh] else if e = PPS_DC c then [PinLow] else [])"
  using assms(1) by (simp add: timer_period_written timer_period_phase [OF assms] Let_def)

lemma duty_window:
  assumes "0 < PPS_DC c" "PPS_DC c < ISR_CNT c" "ISR_CNT c \<le> 65535"
    and "uint (cnt s) = ISR_CNT c" and "n \<le> nat (PPS_DC c)"
  shows "pin_log ((timer_period c ^^ n) s)
           = pin_log s @ (if n = nat (PPS_DC c) then [PinLow] else [])
       \<and> PORTB ((timer_period c ^^ n) s)
           = (if n = nat (PPS_DC c) then PORTB s AND NOT PPS_PIN else PORTB s)"
  using assms(5)
proof (induction n)
  case 0
  then show ?case using assms(1) by simp
next
  case (Suc n)
  let ?N = "ISR_CNT c"
  let ?t = "(timer_period c ^^ n) s"
  have r: "1 \<le> uint (cnt s)" "uint (cnt s) \<le> ?N" using assms by simp_all
  have n: "n < nat (PPS_DC c)" using Suc.prems by simp
  then have IH: "pin_log ?t = pin_log s" "PORTB ?t = PORTB s" using Suc.IH by simp_all
  have "(?N - uint (cnt s) + int n + 1) mod ?N = (int n + 1) mod ?N"
    using assms(4) by simp
  also have "\<dots> = int n + 1"
    using n assms by (intro mod_pos_pos_trivial) simp_all
  finally have e: "(?N - uint (cnt s) + int n + 1) mod ?N = int n + 1" .
  have hi: "uint (cnt ?t) \<noteq> 1"
    using timer_period_phase(1) [OF assms(1-3) r, of n] e by simp
  have lo: "duty_end c (cnt (pps_out c ?t)) \<longleftrightarrow> Suc n = nat (PPS_DC c)"
    using timer_period_phase(2) [OF assms(1-3) r, of n] e assms(1) by auto
  show ?case
    using hi lo IH by (simp add: timer_period_log timer_period_PORTB)
qed

text \<open>
  C3. Take a call of \<^verbatim>\<open>pps_out\<close> that drives the pin high, and let the loop of
  \<^verbatim>\<open>main\<close> poll once after each of the next \<^verbatim>\<open>PPS_DC\<close> calls of the handler.
  The pin is high after the strobe and a poll right then writes nothing. Through
  the first \<^verbatim>\<open>PPS_DC\<close> - 1 periods nothing is written and the port is unchanged.
  The poll after call number \<^verbatim>\<open>PPS_DC\<close> writes the pin low: the only write of the
  window, before the next call of the handler. The pin is then low, and polling again
  leaves it so.
\<close>

theorem duty_end_after_strobe:
  assumes "0 < PPS_DC c" "PPS_DC c < ISR_CNT c" "ISR_CNT c \<le> 65535"
    and "strobes (pps_out c) s0"
  shows "let s1 = pps_out c s0; D = nat (PPS_DC c) in
           PORTB s1 AND PPS_PIN = PPS_PIN
         \<and> main_loop_body c s1 = s1
         \<and> (\<forall>n<D. pin_log ((timer_period c ^^ n) s1) = pin_log s1
                  \<and> PORTB ((timer_period c ^^ n) s1) = PORTB s1)
         \<and> pin_log ((timer_period c ^^ D) s1) = pin_log s1 @ [PinLow]
         \<and> PORTB ((timer_period c ^^ D) s1) AND PPS_PIN = 0
         \<and> PORTB (main_loop_body c ((timer_period c ^^ D) s1))
             = PORTB ((timer_period c ^^ D) s1)"
proof -
  let ?s1 = "pps_out c s0"
  let ?D = "nat (PPS_DC c)"
  from assms(4) have k: "uint (cnt s0) = 1" by (simp add: pps_out_strobes)
  have v: "1 \<le> ISR_CNT c" using assms by simp
  have N: "uint (cnt ?s1) = ISR_CNT c"
    using pps_out_cnt [OF v assms(3), of s0] k by simp
  have 1: "PORTB ?s1 AND PPS_PIN = PPS_PIN"
    using k by (simp add: pps_out_def Let_def IO_SET_def uint_eq_1_iff set_and_pin)
  have "\<not> duty_end c (cnt ?s1)"
    using assms(1) N by (simp add: duty_end_iff [OF assms(1-3)])
  then have 2: "main_loop_body c ?s1 = ?s1" by (simp add: main_loop_body_def)
  have 3: "pin_log ((timer_period c ^^ n) ?s1) = pin_log ?s1
         \<and> PORTB ((timer_period c ^^ n) ?s1) = PORTB ?s1" if "n < ?D" for n
    using duty_window [OF assms(1-3) N, of n] that by simp
  have 4: "pin_log ((timer_period c ^^ ?D) ?s1) = pin_log ?s1 @ [PinLow]"
    and 5: "PORTB ((timer_period c ^^ ?D) ?s1) AND PPS_PIN = 0"
    using duty_window [OF assms(1-3) N, of ?D] by (simp_all add: clr_and_pin)
  have "0 < ?D" using assms(1) by simp
  then obtain m where m: "?D = Suc m" by (cases ?D) simp_all
  have 6: "PORTB (main_loop_body c ((timer_period c ^^ ?D) ?s1))
             = PORTB ((timer_period c ^^ ?D) ?s1)"
    unfolding m by (simp add: timer_period_def main_loop_body_again)
  from 1 2 3 4 5 6 show ?thesis by (simp add: Let_def)
qed

theorem duty_end_after_strobe_witness:
  "strobes (pps_out pps_cfg) (power_on pps_cfg \<lparr> cnt := 1 \<rparr>)
   \<and> pin_log ((timer_period pps_cfg ^^ 10) (pps_out pps_cfg (power_on pps_cfg \<lparr> cnt := 1 \<rparr>)))
       = [PinHigh, PinLow]
   \<and> pin_log ((timer_period pps_cfg ^^ 9) (pps_out pps_cfg (power_on pps_cfg \<lparr> cnt := 1 \<rparr>)))
       = [PinHigh]"
proof -
  let ?s0 = "power_on pps_cfg \<lparr> cnt := 1 \<rparr>"
  have h1: "0 < PPS_DC pps_cfg" and h2: "PPS_DC pps_cfg < ISR_CNT pps_cfg"
    and h3: "ISR_CNT pps_cfg \<le> 65535"
    by (simp_all add: pps_cfg_def)
  have h4: "strobes (pps_out pps_cfg) ?s0" by (simp add: pps_out_strobes)
  have d: "nat (PPS_DC pps_cfg) = 10" by (simp add: pps_cfg_def)
  have l: "pin_log (pps_out pps_cfg ?s0) = [PinHigh]"
    by (simp add: pps_out_log power_on_def)
  from duty_end_after_strobe [OF h1 h2 h3 h4] h4 show ?thesis
    unfolding Let_def d l by simp
qed

text \<open>
  C4. The shipped configuration builds without a diagnostic (8 * 8 * 243 * 1250 is
  19440000) and selects the prescaler 8. Once \<^verbatim>\<open>main\<close> has initialized and enabled
  interrupts, with one poll of the loop after each call of the handler, period number
  \<open>n + 1\<close> writes the pin high when \<open>n + 1\<close> is a multiple of 1250, writes it low
  when \<open>n + 1\<close> is 10 more than a multiple of 1250, and writes nothing otherwise.
\<close>

theorem shipped_configuration:
  "accepted pps_cfg
   \<and> 8 * 8 * 243 * 1250 = F_OSC pps_cfg
   \<and> PPS_PS pps_cfg = ([], Some TMR0_PS8x)
   \<and> written (timer_period pps_cfg)
        ((timer_period pps_cfg ^^ n) (main_setup pps_cfg TMR0_PSMASK ps s))
      = (if Suc n mod 1250 = 0 then [PinHigh]
         else if Suc n mod 1250 = 10 then [PinLow] else [])"
proof -
  let ?s = "main_setup pps_cfg TMR0_PSMASK ps s"
  have h: "0 < PPS_DC pps_cfg" "PPS_DC pps_cfg < ISR_CNT pps_cfg" "ISR_CNT pps_cfg \<le> 65535"
    by (simp_all add: pps_cfg_def)
  have k: "uint (cnt ?s) = 1250"
    by (simp add: main_setup_cnt cnt_initial_def pps_cfg_def)
  then have r: "1 \<le> uint (cnt ?s)" "uint (cnt ?s) \<le> ISR_CNT pps_cfg"
    by (simp_all add: pps_cfg_def)
  have e: "(ISR_CNT pps_cfg - uint (cnt ?s) + int n + 1) mod ISR_CNT pps_cfg
             = int (Suc n mod 1250)"
    using k by (simp add: pps_cfg_def zmod_int add.commute)
  have "written (timer_period pps_cfg) ((timer_period pps_cfg ^^ n) ?s)
      = (if Suc n mod 1250 = 0 then [PinHigh]
         else if Suc n mod 1250 = 10 then [PinLow] else [])"
    unfolding timer_period_written_at [OF h r] Let_def e
    by (simp add: pps_cfg_def)
  moreover have "PPS_PS pps_cfg = ([], Some TMR0_PS8x)"
    by (simp add: PPS_PS_def pps_cfg_def pp_def)
  moreover have "8 * 8 * 243 * 1250 = F_OSC pps_cfg" by (simp add: pps_cfg_def)
  ultimately show ?thesis using accepted_pps_cfg by simp
qed

section \<open>The two counting conventions\<close>

lemma uint_inc:
  "uint (x :: 16 word) < 65535 \<Longrightarrow> uint (x + 1) = uint x + 1"
  by (simp add: uint_plus_if_size word_size)

lemma pps_out_up_cnt:
  assumes "1 \<le> N" "N \<le> 65535" "uint (cnt s) < N"
  shows "uint (cnt (pps_out_up N s)) = (if uint (cnt s) + 1 = N then 0 else uint (cnt s) + 1)"
  using assms by (simp add: pps_out_up_def Let_def IO_SET_def uint_inc)

lemma pps_out_up_log:
  assumes "1 \<le> N" "N \<le> 65535" "uint (cnt s) < N"
  shows "pin_log (pps_out_up N s) = pin_log s @ (if uint (cnt s) + 1 = N then [PinHigh] else [])"
  using assms by (simp add: pps_out_up_def Let_def IO_SET_def uint_inc)

lemma funpow_pps_out_up_cnt:
  assumes "1 \<le> N" "N \<le> 65535" "uint (cnt s) < N"
  shows "uint (cnt ((pps_out_up N ^^ n) s)) = (uint (cnt s) + int n) mod N"
proof (induction n)
  case 0
  show ?case using assms by (simp add: mod_pos_pos_trivial)
next
  case (Suc n)
  let ?a = "uint (cnt s) + int n"
  let ?t = "(pps_out_up N ^^ n) s"
  have N: "0 < N" using assms by simp
  have b: "0 \<le> ?a mod N" "?a mod N < N" using N by simp_all
  then have lt: "uint (cnt ?t) < N" using Suc.IH by simp
  have "uint (cnt (pps_out_up N ?t)) = (if uint (cnt ?t) + 1 = N then 0 else uint (cnt ?t) + 1)"
    using assms(1,2) lt by (rule pps_out_up_cnt)
  also have "\<dots> = (?a + 1) mod N"
    using Suc.IH b by (auto simp add: int_mod_succ [OF N])
  finally show ?case by (simp add: algebra_simps)
qed

lemma pps_out_up_strobes_at:
  assumes "1 \<le> N" "N \<le> 65535" "uint (cnt s) < N"
  shows "strobes (pps_out_up N) ((pps_out_up N ^^ n) s)
           \<longleftrightarrow> (uint (cnt s) + int n + 1) mod N = 0"
proof -
  let ?a = "uint (cnt s) + int n"
  let ?t = "(pps_out_up N ^^ n) s"
  have N: "0 < N" using assms by simp
  have c: "uint (cnt ?t) = ?a mod N" by (rule funpow_pps_out_up_cnt [OF assms])
  then have lt: "uint (cnt ?t) < N" using N by simp
  have "strobes (pps_out_up N) ?t \<longleftrightarrow> uint (cnt ?t) + 1 = N"
    by (simp add: strobes_def written_def pps_out_up_log [OF assms(1,2) lt])
  also have "\<dots> \<longleftrightarrow> ?a mod N = N - 1" using c by auto
  also have "\<dots> \<longleftrightarrow> (?a + 1) mod N = 0"
  proof -
    have "0 \<le> ?a mod N" using N by simp
    then show ?thesis by (auto simp: int_mod_succ [OF N])
  qed
  finally show ?thesis .
qed

text \<open>
  C9. With the same repeat count, between 1 and 65535, the down-counting handler
  started at \<^verbatim>\<open>ISR_CNT\<close> and the up-counting handler started at 0 drive the pin
  high on the same calls: among any number of calls, on those whose number, counted
  from 1, is a multiple of the repeat count.
\<close>

theorem down_up_equivalent:
  assumes "1 \<le> ISR_CNT c" "ISR_CNT c \<le> 65535"
    and "cnt s = cnt_initial c" and "cnt t = cnt_initial_up"
  shows "rising_calls (pps_out c) s n = rising_calls (pps_out_up (ISR_CNT c)) t n
       \<and> rising_calls (pps_out c) s n = filter (\<lambda>i. ISR_CNT c dvd int (Suc i)) [0..<n]"
proof -
  let ?N = "ISR_CNT c"
  have k: "uint (cnt s) = ?N"
    using assms by (simp add: cnt_initial_def uint_cnt_of_int)
  then have r: "1 \<le> uint (cnt s)" "uint (cnt s) \<le> ?N" using assms by simp_all
  have t0: "cnt t = 0" using assms(4) by (simp add: cnt_initial_up_def)
  have z: "uint (cnt t) < ?N" using assms(1) t0 by simp
  have d: "strobes (pps_out c) ((pps_out c ^^ i) s) \<longleftrightarrow> ?N dvd int (Suc i)" for i
    using pps_out_strobes_at [OF assms(1,2) r, of i] k
    by (simp add: dvd_eq_mod_eq_0 add.commute)
  have u: "strobes (pps_out_up ?N) ((pps_out_up ?N ^^ i) t) \<longleftrightarrow> ?N dvd int (Suc i)" for i
    using pps_out_up_strobes_at [OF assms(1,2) z, of i] t0
    by (simp add: dvd_eq_mod_eq_0 add.commute)
  show ?thesis by (simp add: rising_calls_def d u)
qed

theorem down_up_equivalent_witness:
  "cnt (power_on (pps_cfg \<lparr> ISR_CNT := PPS_CNT \<rparr>))
     = cnt_initial (pps_cfg \<lparr> ISR_CNT := PPS_CNT \<rparr>)
   \<and> PPS_CNT = 1215
   \<and> rising_calls (pps_out (pps_cfg \<lparr> ISR_CNT := PPS_CNT \<rparr>))
        (power_on (pps_cfg \<lparr> ISR_CNT := PPS_CNT \<rparr>)) 3000
     = rising_calls (pps_out_up PPS_CNT) (power_on pps_cfg \<lparr> cnt := 0 \<rparr>) 3000"
proof -
  let ?c = "pps_cfg \<lparr> ISR_CNT := PPS_CNT \<rparr>"
  have p: "PPS_CNT = 1215" by (simp add: PPS_CNT_def F_CLK_up_def TMR_TOP_up_def)
  have h1: "1 \<le> ISR_CNT ?c" and h2: "ISR_CNT ?c \<le> 65535" by (simp_all add: p)
  have h3: "cnt (power_on ?c) = cnt_initial ?c" by (simp add: power_on_def)
  have h4: "cnt (power_on pps_cfg \<lparr> cnt := 0 \<rparr>) = cnt_initial_up"
    by (simp add: cnt_initial_up_def)
  have i: "ISR_CNT ?c = PPS_CNT" by simp
  from down_up_equivalent [OF h1 h2 h3 h4, of 3000] h3 p show ?thesis
    unfolding i by blast
qed

end
